theory Spec2Isabelle
  imports Main "HOL-Library.Multiset"
begin

section \<open>Data model\<close>

text \<open>
  Track JSON as the client receives it: \<^verbatim>\<open>{id, name, artists, album_art, is_playing}\<close>.
  The field \<^verbatim>\<open>id\<close> is called \<open>track_id\<close> here (\<open>id\<close> is the identity function of HOL);
  \<^verbatim>\<open>album_art\<close> may be null and \<^verbatim>\<open>is_playing\<close> is only sent for the current song.
\<close>

record track =
  track_id :: string
  name :: string
  artists :: "string list"
  album_art :: "string option"
  is_playing :: "bool option"

text \<open>
  The state of the \<^verbatim>\<open>App\<close> component (App.jsx, the twelve \<^verbatim>\<open>useState\<close> cells).
  \<open>replacingIds\<close> is a JavaScript \<^verbatim>\<open>Set\<close>: its elements in insertion order, without
  repetition. \<open>sessionId\<close> and \<open>error\<close> are nullable strings.
\<close>

record app_state =
  sessionId :: "string option"
  currentSong :: "track option"
  moods :: "string list"
  songCount :: int
  recommendations :: "track list"
  recentlyPlayedIds :: "string list"
  replacingIds :: "string list"
  isLoadingSong :: bool
  isLoadingRecs :: bool
  isAddingToQueue :: bool
  addedToQueue :: bool
  error :: "string option"

text \<open>What a rejected promise or a \<^verbatim>\<open>throw\<close> carries; \<open>message\<close> is \<^verbatim>\<open>e.message\<close>.\<close>

datatype js_error = Error string | TypeError string | SyntaxError string

fun message :: "js_error \<Rightarrow> string" where
  "message (Error m) = m"
| "message (TypeError m) = m"
| "message (SyntaxError m) = m"

text \<open>JavaScript truthiness of a nullable string: null and the empty string are falsy.\<close>

definition truthy :: "string option \<Rightarrow> bool" where
  "truthy v = (case v of None \<Rightarrow> False | Some t \<Rightarrow> t \<noteq> [])"

subsection \<open>JavaScript Set, in insertion order\<close>

definition Set_add :: "'a \<Rightarrow> 'a list \<Rightarrow> 'a list" where
  "Set_add x s = (if x \<in> set s then s else s @ [x])"

text \<open>\<^verbatim>\<open>new Set(iterable)\<close>: the elements are added one by one, from the left.\<close>

definition Set_of :: "'a list \<Rightarrow> 'a list" where
  "Set_of xs = foldl (\<lambda>s x. Set_add x s) [] xs"

definition Set_delete :: "'a \<Rightarrow> 'a list \<Rightarrow> 'a list" where
  "Set_delete x s = filter (\<lambda>y. y \<noteq> x) s"

definition Set_has :: "'a list \<Rightarrow> 'a \<Rightarrow> bool" where
  "Set_has s x = (x \<in> set s)"

section \<open>App.jsx: the handlers of the recommendation list\<close>

text \<open>The parsed bodies of \<^verbatim>\<open>/api/recommend\<close> and \<^verbatim>\<open>/api/reject\<close>.\<close>

record recommend_data =
  data_recommendations :: "track list"
  recently_played_ids :: "string list option"

record reject_data =
  replacement :: track

text \<open>
  \<^verbatim>\<open>useState\<close> initial values; \<open>sid\<close> is what \<^verbatim>\<open>getSessionId\<close> returned.
\<close>

definition initial_state :: "string option \<Rightarrow> app_state" where
  "initial_state sid =
     \<lparr> sessionId = sid, currentSong = None, moods = [], songCount = 5,
       recommendations = [], recentlyPlayedIds = [], replacingIds = Set_of [],
       isLoadingSong = False, isLoadingRecs = False, isAddingToQueue = False,
       addedToQueue = False, error = None \<rparr>"

subsection \<open>handleGenerate\<close>

text \<open>
  An \<^verbatim>\<open>async\<close> handler runs up to its \<^verbatim>\<open>await\<close>, and resumes when the promise settles;
  other handlers may run in between. Each handler is therefore split where it awaits:
  \<open>_begin\<close> is the part before the request, \<open>_resolved\<close> the \<^verbatim>\<open>try\<close> branch followed by
  \<^verbatim>\<open>finally\<close>, \<open>_rejected\<close> the \<^verbatim>\<open>catch\<close> branch followed by \<^verbatim>\<open>finally\<close>.

  \<open>handleGenerate_begin\<close> is \<open>None\<close> when the guard of line 54 returns early: nothing
  is changed and no request is sent.
\<close>

definition handleGenerate_begin :: "app_state \<Rightarrow> app_state option" where
  "handleGenerate_begin s =
     (if currentSong s = None \<or> \<not> truthy (sessionId s) then None
      else Some (s\<lparr> error := None, isLoadingRecs := True,
                    addedToQueue := False, recommendations := [] \<rparr>))"

definition handleGenerate_resolved :: "app_state \<Rightarrow> recommend_data \<Rightarrow> app_state" where
  "handleGenerate_resolved s d =
     s\<lparr> recommendations := data_recommendations d,
        recentlyPlayedIds := (case recently_played_ids d of None \<Rightarrow> [] | Some l \<Rightarrow> l),
        isLoadingRecs := False \<rparr>"

definition handleGenerate_rejected :: "app_state \<Rightarrow> js_error \<Rightarrow> app_state" where
  "handleGenerate_rejected s e =
     s\<lparr> error := Some (''Could not get recommendations: '' @ message e),
        isLoadingRecs := False \<rparr>"

text \<open>The whole handler, when nothing else runs while the request is outstanding.\<close>

definition handleGenerate :: "app_state \<Rightarrow> js_error + recommend_data \<Rightarrow> app_state" where
  "handleGenerate s outcome =
     (case handleGenerate_begin s of
        None \<Rightarrow> s
      | Some s1 \<Rightarrow>
          (case outcome of
             Inr d \<Rightarrow> handleGenerate_resolved s1 d
           | Inl e \<Rightarrow> handleGenerate_rejected s1 e))"

subsection \<open>handleReject\<close>

definition handleReject_begin :: "app_state \<Rightarrow> string \<Rightarrow> app_state" where
  "handleReject_begin s trackId =
     s\<lparr> replacingIds := Set_of (replacingIds s @ [trackId]) \<rparr>"

text \<open>The \<^verbatim>\<open>finally\<close> block of lines 82 to 86.\<close>

definition handleReject_finally :: "app_state \<Rightarrow> string \<Rightarrow> app_state" where
  "handleReject_finally s trackId =
     s\<lparr> replacingIds := Set_delete trackId (Set_of (replacingIds s)) \<rparr>"

definition handleReject_resolved :: "app_state \<Rightarrow> string \<Rightarrow> reject_data \<Rightarrow> app_state" where
  "handleReject_resolved s trackId d =
     handleReject_finally
       (s\<lparr> recommendations :=
             map (\<lambda>r. if track_id r = trackId then replacement d else r) (recommendations s) \<rparr>)
       trackId"

definition handleReject_rejected :: "app_state \<Rightarrow> string \<Rightarrow> js_error \<Rightarrow> app_state" where
  "handleReject_rejected s trackId e =
     handleReject_finally
       (s\<lparr> error := Some (''Could not replace track: '' @ message e) \<rparr>)
       trackId"

definition handleReject :: "app_state \<Rightarrow> string \<Rightarrow> js_error + reject_data \<Rightarrow> app_state" where
  "handleReject s trackId outcome =
     (case outcome of
        Inr d \<Rightarrow> handleReject_resolved (handleReject_begin s trackId) trackId d
      | Inl e \<Rightarrow> handleReject_rejected (handleReject_begin s trackId) trackId e)"

subsection \<open>handleAddToQueue\<close>

definition handleAddToQueue_begin :: "app_state \<Rightarrow> app_state" where
  "handleAddToQueue_begin s = s\<lparr> isAddingToQueue := True \<rparr>"

definition handleAddToQueue_resolved :: "app_state \<Rightarrow> app_state" where
  "handleAddToQueue_resolved s = s\<lparr> addedToQueue := True, isAddingToQueue := False \<rparr>"

definition handleAddToQueue_rejected :: "app_state \<Rightarrow> js_error \<Rightarrow> app_state" where
  "handleAddToQueue_rejected s e =
     s\<lparr> error := Some (''Could not add to queue: '' @ message e),
        isAddingToQueue := False \<rparr>"

definition handleAddToQueue :: "app_state \<Rightarrow> js_error + unit \<Rightarrow> app_state" where
  "handleAddToQueue s outcome =
     (case outcome of
        Inr _ \<Rightarrow> handleAddToQueue_resolved (handleAddToQueue_begin s)
      | Inl e \<Rightarrow> handleAddToQueue_rejected (handleAddToQueue_begin s) e)"

subsection \<open>handleReorder\<close>

definition handleReorder :: "app_state \<Rightarrow> track list \<Rightarrow> app_state" where
  "handleReorder s newList = s\<lparr> recommendations := newList, addedToQueue := False \<rparr>"

section \<open>RecommendationsList.jsx: drag to reorder\<close>

text \<open>\<^verbatim>\<open>Array.prototype.findIndex\<close>: the first index whose element satisfies \<open>P\<close>, or \<open>-1\<close>.\<close>

fun findIndex :: "('a \<Rightarrow> bool) \<Rightarrow> 'a list \<Rightarrow> int" where
  "findIndex P [] = - 1"
| "findIndex P (x # xs) =
     (if P x then 0 else (let i = findIndex P xs in if i < 0 then - 1 else i + 1))"

text \<open>
  The start index of \<^verbatim>\<open>Array.prototype.splice\<close> on an array of length \<open>len\<close>: a negative
  start counts from the end, and the result is clamped to \<open>0 .. len\<close>.
\<close>

definition splice_start :: "nat \<Rightarrow> int \<Rightarrow> nat" where
  "splice_start len start =
     (if start < 0 then nat (max (int len + start) 0) else min (nat start) len)"

text \<open>
  \<^verbatim>\<open>arrayMove\<close> of the library @dnd-kit/sortable, which the component imports:
  \<^verbatim>\<open>
  const newArray = array.slice();
  newArray.splice(to < 0 ? newArray.length + to : to, 0, newArray.splice(from, 1)[0]);
  return newArray;
  \<close>
  JavaScript evaluates the arguments of the outer \<^verbatim>\<open>splice\<close> from left to right: the
  insertion index is computed first, so for a negative \<open>to\<close> it counts from the length
  of the array before anything is removed; then the inner \<^verbatim>\<open>splice(from, 1)\<close> removes
  the element; then the outer \<^verbatim>\<open>splice\<close> clamps the index to the shortened array and
  inserts. The result is \<open>None\<close> when the inner \<^verbatim>\<open>splice\<close> removes nothing: JavaScript
  then inserts \<^verbatim>\<open>undefined\<close>, which is not a track.
\<close>

definition arrayMove :: "'a list \<Rightarrow> int \<Rightarrow> int \<Rightarrow> 'a list option" where
  "arrayMove array from to =
     (let t = (if to < 0 then int (length array) + to else to);
          a = splice_start (length array) from;
          removed = take 1 (drop a array);
          newArray = take a array @ drop (a + 1) array;
          b = splice_start (length newArray) t
      in case removed of
           [] \<Rightarrow> None
         | x # _ \<Rightarrow> Some (take b newArray @ [x] @ drop b newArray))"

text \<open>
  The drag-end event of @dnd-kit/core: \<^verbatim>\<open>active.id\<close>, and \<^verbatim>\<open>over\<close>, which is null when the
  item is dropped outside every row (then \<^verbatim>\<open>over?.id\<close> is undefined).
\<close>

record drag_event =
  active_id :: string
  over_id :: "string option"

text \<open>
  \<open>songs\<close> is the \<open>recommendations\<close> of the render the handler belongs to, and
  \<^verbatim>\<open>onReorder\<close> is \<open>handleReorder\<close>. With \<^verbatim>\<open>over\<close> null the test of line 35 holds and
  line 37 reads \<^verbatim>\<open>over.id\<close>, which throws before anything is changed. The last case
  (nothing to move) needs an empty list, for which the component renders nothing
  (line 42) and no drag can end; JavaScript would store \<^verbatim>\<open>[undefined]\<close> and throw in
  the next render.
\<close>

definition handleDragEnd :: "app_state \<Rightarrow> drag_event \<Rightarrow> js_error + app_state" where
  "handleDragEnd s event =
     (if Some (active_id event) \<noteq> over_id event then
        (let songs = recommendations s;
             oldIndex = findIndex (\<lambda>t. track_id t = active_id event) songs
         in case over_id event of
              None \<Rightarrow> Inl (TypeError ''Cannot read properties of null'')
            | Some oid \<Rightarrow>
                (let newIndex = findIndex (\<lambda>t. track_id t = oid) songs
                 in case arrayMove songs oldIndex newIndex of
                      Some newList \<Rightarrow> Inr (handleReorder s newList)
                    | None \<Rightarrow> Inl (TypeError ''Cannot read properties of undefined'')))
      else Inr s)"

section \<open>api.js: the gateway client\<close>

datatype json =
  JNull | JBool bool | JNum int | JStr string | JArr "json list" | JObj "(string \<times> json) list"

text \<open>
  The second argument of \<^verbatim>\<open>fetch\<close>. The body is kept as the value handed to
  \<^verbatim>\<open>JSON.stringify\<close>.
\<close>

record options =
  opt_method :: "string option"
  opt_headers :: "(string \<times> string) list option"
  opt_body :: "json option"

record request =
  req_url :: string
  req_method :: "string option"
  req_headers :: "(string \<times> string) list"
  req_body :: "json option"

text \<open>
  A response, as far as \<^verbatim>\<open>api\<close> looks at it: \<^verbatim>\<open>res.ok\<close>, \<^verbatim>\<open>res.status\<close>, and what the
  promises \<^verbatim>\<open>res.text()\<close> and \<^verbatim>\<open>res.json()\<close> settle to (\<open>Inl\<close>: rejected).
\<close>

record response =
  res_ok :: bool
  res_status :: nat
  res_text :: "js_error + string"
  res_json :: "js_error + json"

datatype fetch_outcome = Rejected js_error | Resolved response

definition BASE :: string where
  "BASE = ''/api''"

definition no_options :: options where
  "no_options = \<lparr> opt_method = None, opt_headers = None, opt_body = None \<rparr>"

definition digit_char :: "nat \<Rightarrow> char" where
  "digit_char d = char_of (48 + d)"

text \<open>A number in a template literal: its decimal digits.\<close>

function string_of_nat :: "nat \<Rightarrow> string" where
  "string_of_nat n =
     (if n < 10 then [digit_char n] else string_of_nat (n div 10) @ [digit_char (n mod 10)])"
  by pat_completeness auto
termination
  by (relation "measure (\<lambda>n. n)") auto

declare string_of_nat.simps [simp del]

text \<open>
  The object spread \<^verbatim>\<open>{ headers: {...}, ...options }\<close>: a \<^verbatim>\<open>headers\<close> key of \<open>options\<close>
  replaces the default.
\<close>

definition api_request :: "string \<Rightarrow> options \<Rightarrow> request" where
  "api_request path opts =
     \<lparr> req_url = BASE @ path,
       req_method = opt_method opts,
       req_headers = (case opt_headers opts of
                        None \<Rightarrow> [(''Content-Type'', ''application/json'')]
                      | Some h \<Rightarrow> h),
       req_body = opt_body opts \<rparr>"

text \<open>
  The network is a function \<open>fetch\<close> from a request and the number of calls made so far
  to an outcome; \<open>api\<close> returns its own outcome (\<open>Inl\<close>: it throws) and the new number of
  calls.
\<close>

definition api ::
  "(request \<Rightarrow> nat \<Rightarrow> fetch_outcome) \<Rightarrow> nat \<Rightarrow> string \<Rightarrow> options \<Rightarrow> (js_error + json) \<times> nat" where
  "api fetch calls path opts =
     (case fetch (api_request path opts) calls of
        Rejected e \<Rightarrow> (Inl e, Suc calls)
      | Resolved res \<Rightarrow>
          if \<not> res_ok res then
            (let text = (case res_text res of Inl _ \<Rightarrow> ''Unknown error'' | Inr t \<Rightarrow> t)
             in (Inl (Error (if text \<noteq> [] then text
                             else ''HTTP '' @ string_of_nat (res_status res))),
                 Suc calls))
          else (res_json res, Suc calls))"

definition getCurrentSong_options :: "string \<Rightarrow> string \<times> options" where
  "getCurrentSong_options sid = (''/current-song?session_id='' @ sid, no_options)"

definition getRecommendations_options ::
  "string \<Rightarrow> string \<Rightarrow> string list \<Rightarrow> int \<Rightarrow> string \<times> options" where
  "getRecommendations_options sid currentTrackId ms n =
     (''/recommend'',
      \<lparr> opt_method = Some ''POST'', opt_headers = None,
        opt_body = Some (JObj [(''session_id'', JStr sid),
                               (''current_track_id'', JStr currentTrackId),
                               (''moods'', JArr (map JStr ms)),
                               (''n'', JNum n)]) \<rparr>)"

definition rejectTrack_options ::
  "string \<Rightarrow> string \<Rightarrow> string list \<Rightarrow> string list \<Rightarrow> string \<times> options" where
  "rejectTrack_options sid rejectedTrackId currentRecs recentlyPlayed =
     (''/reject'',
      \<lparr> opt_method = Some ''POST'', opt_headers = None,
        opt_body = Some (JObj [(''session_id'', JStr sid),
                               (''rejected_track_id'', JStr rejectedTrackId),
                               (''current_recommendations'', JArr (map JStr currentRecs)),
                               (''recently_played_ids'', JArr (map JStr recentlyPlayed))]) \<rparr>)"

definition addToQueue_options :: "string \<Rightarrow> string list \<Rightarrow> string \<times> options" where
  "addToQueue_options sid trackIds =
     (''/add-to-queue'',
      \<lparr> opt_method = Some ''POST'', opt_headers = None,
        opt_body = Some (JObj [(''session_id'', JStr sid),
                               (''track_ids'', JArr (map JStr trackIds))]) \<rparr>)"

text \<open>The four exported operations: each is \<open>api\<close> at its path and options.\<close>

datatype operation =
    GetCurrentSong string
  | GetRecommendations string string "string list" int
  | RejectTrack string string "string list" "string list"
  | AddToQueue string "string list"

fun operation_options :: "operation \<Rightarrow> string \<times> options" where
  "operation_options (GetCurrentSong sid) = getCurrentSong_options sid"
| "operation_options (GetRecommendations sid cur ms n) = getRecommendations_options sid cur ms n"
| "operation_options (RejectTrack sid rej recs played) = rejectTrack_options sid rej recs played"
| "operation_options (AddToQueue sid ids) = addToQueue_options sid ids"

definition perform ::
  "(request \<Rightarrow> nat \<Rightarrow> fetch_outcome) \<Rightarrow> nat \<Rightarrow> operation \<Rightarrow> (js_error + json) \<times> nat" where
  "perform fetch calls op =
     (case operation_options op of (path, opts) \<Rightarrow> api fetch calls path opts)"

section \<open>App.jsx: session, mounting and rendering\<close>

text \<open>
  What \<^verbatim>\<open>getSessionId\<close> reads and writes in the browser: the visible location (its
  path, and its query as the name and value pairs that \<^verbatim>\<open>URLSearchParams\<close> parses from
  \<^verbatim>\<open>window.location.search\<close>) and \<^verbatim>\<open>sessionStorage\<close>.
\<close>

record browser =
  location_pathname :: string
  location_search :: "(string \<times> string) list"
  sessionStorage :: "string \<rightharpoonup> string"

text \<open>\<^verbatim>\<open>URLSearchParams.get\<close>: the value of the first pair of that name, or null.\<close>

definition params_get :: "(string \<times> string) list \<Rightarrow> string \<Rightarrow> string option" where
  "params_get params k = map_of params k"

text \<open>\<^verbatim>\<open>window.history.replaceState({}, '', '/')\<close>: the location becomes \<^verbatim>\<open>/\<close>, without query.\<close>

definition replaceState_root :: "browser \<Rightarrow> browser" where
  "replaceState_root b = b\<lparr> location_pathname := ''/'', location_search := [] \<rparr>"

definition getSessionId :: "browser \<Rightarrow> string option \<times> browser" where
  "getSessionId b =
     (let ident = params_get (location_search b) ''session''
      in if truthy ident then
           (case ident of
              Some v \<Rightarrow>
                (ident,
                 replaceState_root
                   (b\<lparr> sessionStorage := (sessionStorage b)(''session_id'' \<mapsto> v) \<rparr>))
            | None \<Rightarrow> (sessionStorage b ''session_id'', b))
         else (sessionStorage b ''session_id'', b))"

text \<open>
  The effect of lines 43 to 50, run when the component mounts: the new state and the
  requests sent.
\<close>

definition App_mount :: "app_state \<Rightarrow> app_state \<times> request list" where
  "App_mount s =
     (if \<not> truthy (sessionId s) then (s, [])
      else (case sessionId s of
              None \<Rightarrow> (s, [])
            | Some sid \<Rightarrow>
                (s\<lparr> isLoadingSong := True \<rparr>,
                 [case getCurrentSong_options sid of (path, opts) \<Rightarrow> api_request path opts])))"

definition getCurrentSong_resolved :: "app_state \<Rightarrow> track option \<Rightarrow> app_state" where
  "getCurrentSong_resolved s song = s\<lparr> currentSong := song, isLoadingSong := False \<rparr>"

definition getCurrentSong_rejected :: "app_state \<Rightarrow> js_error \<Rightarrow> app_state" where
  "getCurrentSong_rejected s e =
     s\<lparr> error := Some (''Could not fetch current song: '' @ message e),
        isLoadingSong := False \<rparr>"

text \<open>The components that \<^verbatim>\<open>App\<close> returns, with the props that carry state.\<close>

datatype component =
    LoginPage
  | ErrorBanner string
  | SongSkeleton
  | CurrentSongCard "track option"
  | MoodSelector "string list"
  | SongCountPicker int
  | GenerateButton bool
  | RecommendationsList "track list" "string list" bool bool

definition App_render :: "app_state \<Rightarrow> component list" where
  "App_render s =
     (if \<not> truthy (sessionId s) then [LoginPage]
      else
        (case error s of
           None \<Rightarrow> []
         | Some e \<Rightarrow> if e \<noteq> [] then [ErrorBanner e] else [])
        @ [if isLoadingSong s then SongSkeleton else CurrentSongCard (currentSong s)]
        @ (if currentSong s \<noteq> None
           then [MoodSelector (moods s), SongCountPicker (songCount s),
                 GenerateButton (isLoadingRecs s)]
           else [])
        @ (if length (recommendations s) > 0
           then [RecommendationsList (recommendations s) (replacingIds s)
                   (isAddingToQueue s) (addedToQueue s)]
           else []))"

text \<open>Start-up: resolve the session, create the state, mount.\<close>

definition App_start :: "browser \<Rightarrow> (app_state \<times> request list) \<times> browser" where
  "App_start b =
     (case getSessionId b of (sid, b') \<Rightarrow> (App_mount (initial_state sid), b'))"

section \<open>The handlers as events\<close>

text \<open>
  Everything that can change the state after start-up: a handler, or the continuation of
  one when its request settles.
\<close>

datatype event =
    GenerateBegin
  | GenerateResolved recommend_data
  | GenerateRejected js_error
  | RejectBegin string
  | RejectResolved string reject_data
  | RejectRejected string js_error
  | AddToQueueBegin
  | AddToQueueResolved
  | AddToQueueRejected js_error
  | Reorder "track list"
  | DragEnd drag_event
  | CurrentSongResolved "track option"
  | CurrentSongRejected js_error
  | SetMoods "string list"
  | SetSongCount int
  | DismissError

fun step :: "app_state \<Rightarrow> event \<Rightarrow> app_state" where
  "step s GenerateBegin = (case handleGenerate_begin s of None \<Rightarrow> s | Some s' \<Rightarrow> s')"
| "step s (GenerateResolved d) = handleGenerate_resolved s d"
| "step s (GenerateRejected e) = handleGenerate_rejected s e"
| "step s (RejectBegin t) = handleReject_begin s t"
| "step s (RejectResolved t d) = handleReject_resolved s t d"
| "step s (RejectRejected t e) = handleReject_rejected s t e"
| "step s AddToQueueBegin = handleAddToQueue_begin s"
| "step s AddToQueueResolved = handleAddToQueue_resolved s"
| "step s (AddToQueueRejected e) = handleAddToQueue_rejected s e"
| "step s (Reorder newList) = handleReorder s newList"
| "step s (DragEnd ev) = (case handleDragEnd s ev of Inl _ \<Rightarrow> s | Inr s' \<Rightarrow> s')"
| "step s (CurrentSongResolved song) = getCurrentSong_resolved s song"
| "step s (CurrentSongRejected e) = getCurrentSong_rejected s e"
| "step s (SetMoods ms) = s\<lparr> moods := ms \<rparr>"
| "step s (SetSongCount n) = s\<lparr> songCount := n \<rparr>"
| "step s DismissError = s\<lparr> error := None \<rparr>"

fun run :: "app_state \<Rightarrow> event list \<Rightarrow> app_state" where
  "run s [] = s"
| "run s (e # es) = run (step s e) es"

text \<open>The identifiers of the list, in order.\<close>

definition ids :: "app_state \<Rightarrow> string list" where
  "ids s = map track_id (recommendations s)"

text \<open>
  What an event must satisfy for the identifiers of the list to stay pairwise distinct:
  a generated list has distinct identifiers, a reordered list is a permutation of the
  current one, and a replacement does not carry the identifier of another track of the
  list.
\<close>

fun admissible :: "app_state \<Rightarrow> event \<Rightarrow> bool" where
  "admissible s (GenerateResolved d) = distinct (map track_id (data_recommendations d))"
| "admissible s (Reorder newList) = (mset (map track_id newList) = mset (ids s))"
| "admissible s (RejectResolved t d) =
     (t \<in> set (ids s) \<longrightarrow> track_id (replacement d) \<notin> set (filter (\<lambda>i. i \<noteq> t) (ids s)))"
| "admissible s _ = True"

fun run_admissible :: "app_state \<Rightarrow> event list \<Rightarrow> bool" where
  "run_admissible s [] = True"
| "run_admissible s (e # es) = (admissible s e \<and> run_admissible (step s e) es)"

section \<open>Example values\<close>

definition mk_track :: "string \<Rightarrow> track" where
  "mk_track i = \<lparr> track_id = i, name = i, artists = [], album_art = None, is_playing = None \<rparr>"

definition song0 :: track where
  "song0 = \<lparr> track_id = ''S'', name = ''Song'', artists = [''Artist''], album_art = None,
             is_playing = Some True \<rparr>"

text \<open>A session with a current song, before any generation.\<close>

definition ready_state :: app_state where
  "ready_state = getCurrentSong_resolved (fst (App_mount (initial_state (Some ''tok'')))) (Some song0)"

definition abc_data :: recommend_data where
  "abc_data = \<lparr> data_recommendations = [mk_track ''A'', mk_track ''B'', mk_track ''C''],
                recently_played_ids = Some [] \<rparr>"

definition xy_data :: recommend_data where
  "xy_data = \<lparr> data_recommendations = [mk_track ''X'', mk_track ''Y''],
               recently_played_ids = None \<rparr>"

text \<open>The list A, B, C after a successful generation.\<close>

definition abc_state :: app_state where
  "abc_state = handleGenerate ready_state (Inr abc_data)"

text \<open>The server answers the reject of A with a track that carries the identifier B.\<close>

definition dup_state :: app_state where
  "dup_state = handleReject abc_state ''A'' (Inr \<lparr> replacement = mk_track ''B'' \<rparr>)"

text \<open>
  Two runs from \<open>ready_state\<close>. In the first, B is rejected, A is dragged onto C while the
  request is outstanding, and the replacement D arrives. In the second, the reject of A
  is answered with a track that carries the identifier B.
\<close>

definition reject_trace :: "event list" where
  "reject_trace =
     [GenerateBegin, GenerateResolved abc_data, RejectBegin ''B'',
      DragEnd \<lparr> active_id = ''A'', over_id = Some ''C'' \<rparr>,
      RejectResolved ''B'' \<lparr> replacement = mk_track ''D'' \<rparr>]"

definition dup_trace :: "event list" where
  "dup_trace =
     [GenerateBegin, GenerateResolved abc_data, RejectBegin ''A'',
      RejectResolved ''A'' \<lparr> replacement = mk_track ''B'' \<rparr>]"

text \<open>
  Responses: a success with an empty body, as a 204 would be (\<^verbatim>\<open>res.json()\<close> rejects); an
  error with a body; an error without one; a success whose body is the JSON \<^verbatim>\<open>null\<close>.
\<close>

definition empty_ok_response :: response where
  "empty_ok_response =
     \<lparr> res_ok = True, res_status = 204, res_text = Inr [],
       res_json = Inl (SyntaxError ''Unexpected end of JSON input'') \<rparr>"

definition error_response :: response where
  "error_response =
     \<lparr> res_ok = False, res_status = 500, res_text = Inr ''queue is full'',
       res_json = Inl (SyntaxError ''Unexpected token q'') \<rparr>"

definition bare_error_response :: response where
  "bare_error_response =
     \<lparr> res_ok = False, res_status = 503, res_text = Inr [],
       res_json = Inl (SyntaxError ''Unexpected end of JSON input'') \<rparr>"

definition ok_response :: response where
  "ok_response =
     \<lparr> res_ok = True, res_status = 200, res_text = Inr ''null'', res_json = Inr JNull \<rparr>"

text \<open>
  Browsers at start-up: the session parameter in the URL and an older token stored; no
  parameter and a stored token; neither; the parameter present with an empty value.
\<close>

definition url_browser :: browser where
  "url_browser =
     \<lparr> location_pathname = ''/'', location_search = [(''session'', ''tok'')],
       sessionStorage = [''session_id'' \<mapsto> ''old''] \<rparr>"

definition stored_browser :: browser where
  "stored_browser =
     \<lparr> location_pathname = ''/'', location_search = [],
       sessionStorage = [''session_id'' \<mapsto> ''old''] \<rparr>"

definition blank_browser :: browser where
  "blank_browser =
     \<lparr> location_pathname = ''/'', location_search = [], sessionStorage = Map.empty \<rparr>"

definition empty_param_browser :: browser where
  "empty_param_browser =
     \<lparr> location_pathname = ''/'', location_search = [(''session'', [])],
       sessionStorage = [''session_id'' \<mapsto> ''old''] \<rparr>"

section \<open>Facts about the JavaScript Set\<close>

lemma set_Set_of_aux: "set (foldl (\<lambda>s x. Set_add x s) acc xs) = set acc \<union> set xs"
  by (induction xs arbitrary: acc) (auto simp: Set_add_def)

lemma Set_of_distinct_aux: "distinct acc \<Longrightarrow> distinct (foldl (\<lambda>s x. Set_add x s) acc xs)"
  by (induction xs arbitrary: acc) (auto simp: Set_add_def)

lemma Set_of_id_aux: "distinct (acc @ xs) \<Longrightarrow> foldl (\<lambda>s x. Set_add x s) acc xs = acc @ xs"
  by (induction xs arbitrary: acc) (auto simp: Set_add_def)

lemma set_Set_of: "set (Set_of xs) = set xs"
  by (simp add: Set_of_def set_Set_of_aux)

lemma distinct_Set_of: "distinct (Set_of xs)"
  by (simp add: Set_of_def Set_of_distinct_aux)

lemma Set_of_distinct_id: "distinct xs \<Longrightarrow> Set_of xs = xs"
  using Set_of_id_aux [of "[]" xs] by (simp add: Set_of_def)

lemma Set_of_snoc: "Set_of (xs @ [x]) = Set_add x (Set_of xs)"
  by (simp add: Set_of_def)

lemma distinct_Set_add: "distinct s \<Longrightarrow> distinct (Set_add x s)"
  by (simp add: Set_add_def)

lemma Set_add_twice: "Set_add x (Set_add x s) = Set_add x s"
  by (simp add: Set_add_def)

lemma set_Set_delete: "set (Set_delete x s) = set s - {x}"
  by (auto simp: Set_delete_def)

lemma Set_of_Nil: "Set_of [] = []"
  by (simp add: Set_of_def)

section \<open>Facts about arrayMove and findIndex\<close>

lemma findIndex_range: "- 1 \<le> findIndex P xs \<and> findIndex P xs < int (length xs)"
  by (induction xs) (auto simp: Let_def)

text \<open>
  A negative target counts from the length before the removal: moving the first of three
  elements to \<open>-1\<close> puts it last, and moving the last one to \<open>-1\<close> leaves it in place.
\<close>

lemma arrayMove_negative_target:
  "arrayMove [''A'', ''B'', ''C''] 0 (- 1) = Some [''B'', ''C'', ''A'']
   \<and> arrayMove [''A'', ''B'', ''C''] (- 1) (- 1) = Some [''A'', ''B'', ''C'']
   \<and> arrayMove [''A'', ''B'', ''C''] 0 2 = Some [''B'', ''C'', ''A'']
   \<and> arrayMove [''A'', ''B'', ''C''] 2 0 = Some [''C'', ''A'', ''B'']"
  by code_simp

text \<open>Whatever the two indices, \<open>arrayMove\<close> returns a permutation of its argument.\<close>

lemma arrayMove_mset:
  assumes "arrayMove xs from to = Some ys"
  shows "mset ys = mset xs"
proof -
  define a where "a = splice_start (length xs) from"
  define n where "n = take a xs @ drop (a + 1) xs"
  define b where "b = splice_start (length n) (if to < 0 then int (length xs) + to else to)"
  have nonempty: "take 1 (drop a xs) \<noteq> []"
    using assms by (auto simp: arrayMove_def Let_def a_def split: list.splits)
  then have a_lt: "a < length xs"
    by (cases "a < length xs") auto
  then have removed: "take 1 (drop a xs) = [xs ! a]"
    by (simp add: Cons_nth_drop_Suc [symmetric])
  have "arrayMove xs from to =
          (case take 1 (drop a xs) of [] \<Rightarrow> None | x # _ \<Rightarrow> Some (take b n @ [x] @ drop b n))"
    by (simp only: arrayMove_def Let_def a_def n_def b_def)
  also have "\<dots> = Some (take b n @ [xs ! a] @ drop b n)"
    by (simp only: removed list.case)
  finally have ys: "ys = take b n @ [xs ! a] @ drop b n"
    using assms by simp
  have "mset (take b n) + mset (drop b n) = mset n"
    by (simp only: mset_append [symmetric] append_take_drop_id)
  then have "mset ys = mset n + {#xs ! a#}"
    unfolding ys by simp
  also have "\<dots> = mset (take a xs @ xs ! a # drop (Suc a) xs)"
    by (simp add: n_def)
  also have "\<dots> = mset xs"
    using a_lt by (simp only: id_take_nth_drop [symmetric])
  finally show ?thesis .
qed

text \<open>On a list that is not empty, with a first index that \<open>findIndex\<close> returned, there is
  always an element to move.\<close>

lemma arrayMove_nonempty:
  assumes "xs \<noteq> []" and "- 1 \<le> from" and "from < int (length xs)"
  shows "arrayMove xs from to \<noteq> None"
proof -
  have "splice_start (length xs) from < length xs"
    using assms by (cases xs) (auto simp: splice_start_def)
  then have "take 1 (drop (splice_start (length xs) from) xs) \<noteq> []"
    by simp
  then show ?thesis
    by (auto simp: arrayMove_def Let_def split: list.splits)
qed

lemma handleDragEnd_mset:
  "handleDragEnd s ev = Inr s' \<Longrightarrow> mset (recommendations s') = mset (recommendations s)"
  by (auto simp: handleDragEnd_def Let_def handleReorder_def arrayMove_mset
           split: if_splits option.splits)

section \<open>The recommendation list\<close>

lemma map_replace_absent:
  "t \<notin> set (map f xs) \<Longrightarrow> map (\<lambda>r. if f r = t then y else r) xs = xs"
  by (induction xs) auto

lemma abc_state_eq:
  "abc_state = ready_state\<lparr> recommendations := [mk_track ''A'', mk_track ''B'', mk_track ''C''] \<rparr>"
  by (simp add: abc_state_def ready_state_def handleGenerate_def handleGenerate_begin_def
      handleGenerate_resolved_def getCurrentSong_resolved_def App_mount_def initial_state_def
      truthy_def abc_data_def Set_of_Nil)

lemma ready_state_eq:
  "ready_state =
     \<lparr> sessionId = Some ''tok'', currentSong = Some song0, moods = [], songCount = 5,
       recommendations = [], recentlyPlayedIds = [], replacingIds = [],
       isLoadingSong = False, isLoadingRecs = False, isAddingToQueue = False,
       addedToQueue = False, error = None \<rparr>"
  by (simp add: ready_state_def getCurrentSong_resolved_def App_mount_def initial_state_def
      truthy_def Set_of_Nil)

text \<open>
  Claim C6. Marking an identifier as being replaced a second time changes nothing: the
  state after two \<open>handleReject_begin\<close> for the same identifier is the state after one,
  Replacing Set included; and \<open>handleReject_begin\<close> leaves the list as it is.
\<close>

theorem C6_beginReject_idempotent:
  "handleReject_begin (handleReject_begin s t) t = handleReject_begin s t
   \<and> recommendations (handleReject_begin s t) = recommendations s"
proof -
  let ?r = "Set_add t (Set_of (replacingIds s))"
  have "distinct ?r"
    by (rule distinct_Set_add) (rule distinct_Set_of)
  then have "Set_of ?r = ?r"
    by (rule Set_of_distinct_id)
  then have "Set_add t (Set_of ?r) = ?r"
    by (simp add: Set_add_twice)
  then show ?thesis
    by (simp add: handleReject_begin_def Set_of_snoc)
qed

text \<open>
  Claim C4. When the rejected identifier does not occur in the list, the completion of
  the reject leaves the list, contents and order, as it was: the late replacement is not
  applied.
\<close>

theorem C4_completeReject_absent_noop:
  "trackId \<notin> set (ids s) \<Longrightarrow>
   recommendations (handleReject_resolved s trackId d) = recommendations s"
  by (simp add: handleReject_resolved_def handleReject_finally_def ids_def map_replace_absent)

text \<open>
  The scenario of the specification: A, B, C; B is rejected; a new generation gives X, Y
  before the replacement D arrives.
\<close>

theorem C4_completeReject_absent_noop_witness:
  "''B'' \<notin> set (ids (handleGenerate (handleReject_begin abc_state ''B'') (Inr xy_data)))
   \<and> recommendations
        (handleReject_resolved (handleGenerate (handleReject_begin abc_state ''B'') (Inr xy_data))
           ''B'' \<lparr> replacement = mk_track ''D'' \<rparr>)
      = [mk_track ''X'', mk_track ''Y'']"
proof -
  let ?s = "handleGenerate (handleReject_begin abc_state ''B'') (Inr xy_data)"
  have recs: "recommendations ?s = [mk_track ''X'', mk_track ''Y'']"
    by (simp add: abc_state_eq ready_state_eq handleReject_begin_def handleGenerate_def
        handleGenerate_begin_def handleGenerate_resolved_def truthy_def xy_data_def)
  then have absent: "''B'' \<notin> set (ids ?s)"
    by (simp add: ids_def mk_track_def)
  show ?thesis
    using absent C4_completeReject_absent_noop [OF absent] recs by simp
qed

text \<open>
  Claim C10. A drag that ends on the dragged row itself (the identifier of the drop
  target is the identifier of the dragged item) issues no reorder: the handler returns
  the state it was given, so the list and the Committed flag are as before.
\<close>

theorem C10_drop_on_itself_noop:
  "handleDragEnd s \<lparr> active_id = a, over_id = Some a \<rparr> = Inr s"
  by (simp add: handleDragEnd_def)

lemma dup_state_eq:
  "dup_state = ready_state\<lparr> recommendations := [mk_track ''B'', mk_track ''B'', mk_track ''C''] \<rparr>"
  by (simp add: dup_state_def abc_state_eq ready_state_eq handleReject_def handleReject_begin_def
      handleReject_resolved_def handleReject_finally_def mk_track_def
      Set_of_def Set_add_def Set_delete_def)

lemma handleReject_resolved_recs:
  "recommendations (handleReject_resolved s t d) =
     map (\<lambda>r. if track_id r = t then replacement d else r) (recommendations s)"
  by (simp add: handleReject_resolved_def handleReject_finally_def)

lemma handleReject_resolved_replacing:
  "set (replacingIds (handleReject_resolved s t d)) = set (replacingIds s) - {t}"
  by (simp add: handleReject_resolved_def handleReject_finally_def set_Set_delete set_Set_of)

lemma handleReject_rejected_frame:
  "recommendations (handleReject_rejected s t e) = recommendations s
   \<and> set (replacingIds (handleReject_rejected s t e)) = set (replacingIds s) - {t}"
  by (simp add: handleReject_rejected_def handleReject_finally_def set_Set_delete set_Set_of)

lemma handleGenerate_resolved_frame:
  "recommendations (handleGenerate_resolved t d) = data_recommendations d
   \<and> replacingIds (handleGenerate_resolved t d) = replacingIds t
   \<and> addedToQueue (handleGenerate_resolved t d) = addedToQueue t"
  by (simp add: handleGenerate_resolved_def)

text \<open>
  Claim C1, as the code has it. \<open>handleReorder\<close> compares nothing and cannot fail: for
  every list and every argument, permutation or not, the argument becomes the list, the
  Committed flag becomes false and the Replacing Set stays as it was. When the argument
  is a permutation of the list, the identifier set and the length are those of the list.
  That the argument is a permutation is the caller's doing: every reorder that
  \<open>handleDragEnd\<close> issues passes a permutation of the list.
\<close>

theorem C1_reorder_unchecked:
  "recommendations (handleReorder s newList) = newList
   \<and> \<not> addedToQueue (handleReorder s newList)
   \<and> replacingIds (handleReorder s newList) = replacingIds s
   \<and> (mset newList = mset (recommendations s) \<longrightarrow>
        set (ids (handleReorder s newList)) = set (ids s)
        \<and> length (recommendations (handleReorder s newList)) = length (recommendations s))
   \<and> (case handleDragEnd s ev of
        Inl _ \<Rightarrow> True
      | Inr s' \<Rightarrow> mset (recommendations s') = mset (recommendations s))"
proof -
  have perm: "set (ids (handleReorder s newList)) = set (ids s)
      \<and> length (recommendations (handleReorder s newList)) = length (recommendations s)"
    if "mset newList = mset (recommendations s)"
  proof -
    have "set newList = set (recommendations s)"
      using that by (rule mset_eq_setD)
    moreover have "length newList = length (recommendations s)"
      using that by (rule mset_eq_length)
    ultimately show ?thesis
      by (simp add: handleReorder_def ids_def)
  qed
  have drag: "(case handleDragEnd s ev of
        Inl _ \<Rightarrow> True
      | Inr s' \<Rightarrow> mset (recommendations s') = mset (recommendations s))"
    by (simp add: handleDragEnd_mset split: sum.split)
  show ?thesis
    using perm drag by (simp add: handleReorder_def)
qed

theorem C1_reorder_unchecked_witness:
  "mset [mk_track ''C'', mk_track ''A'', mk_track ''B''] = mset (recommendations abc_state)
   \<and> recommendations (handleReorder abc_state [mk_track ''C'', mk_track ''A'', mk_track ''B''])
       = [mk_track ''C'', mk_track ''A'', mk_track ''B'']
   \<and> set (ids (handleReorder abc_state [mk_track ''C'', mk_track ''A'', mk_track ''B'']))
       = set (ids abc_state)"
proof -
  have p: "mset [mk_track ''C'', mk_track ''A'', mk_track ''B''] = mset (recommendations abc_state)"
    by (simp add: abc_state_eq)
  show ?thesis
    using p C1_reorder_unchecked [of abc_state "[mk_track ''C'', mk_track ''A'', mk_track ''B'']"]
    by simp
qed

text \<open>
  The claim as written fails: on the list A, B, C, a reorder to the list Z, whose
  identifier set is not that of A, B, C, is accepted and Z becomes the list.
\<close>

theorem C1_reorder_foreign_list_counterexample:
  "set (map track_id [mk_track ''Z'']) \<noteq> set (ids abc_state)
   \<and> recommendations (handleReorder abc_state [mk_track ''Z'']) = [mk_track ''Z'']
   \<and> recommendations (handleReorder abc_state [mk_track ''Z'']) \<noteq> recommendations abc_state"
  by (simp add: handleReorder_def abc_state_eq ids_def mk_track_def)

text \<open>
  Claim C2, as the code has it. When \<open>handleGenerate\<close> runs (there is a current song and
  a session) and the generation succeeds with the tracks of \<open>d\<close>, the list is exactly
  those tracks, the Committed flag is false, the error is cleared, and the Replacing Set
  is the one of the prior state: \<open>handleGenerate\<close> never writes it.
\<close>

theorem C2_setList_on_generation:
  "currentSong s \<noteq> None \<Longrightarrow> truthy (sessionId s) \<Longrightarrow>
   recommendations (handleGenerate s (Inr d)) = data_recommendations d
   \<and> \<not> addedToQueue (handleGenerate s (Inr d))
   \<and> replacingIds (handleGenerate s (Inr d)) = replacingIds s
   \<and> error (handleGenerate s (Inr d)) = None"
  by (auto simp: handleGenerate_def handleGenerate_begin_def handleGenerate_resolved_def)

theorem C2_setList_on_generation_witness:
  "currentSong (handleAddToQueue abc_state (Inr ())) \<noteq> None
   \<and> truthy (sessionId (handleAddToQueue abc_state (Inr ())))
   \<and> addedToQueue (handleAddToQueue abc_state (Inr ()))
   \<and> recommendations (handleGenerate (handleAddToQueue abc_state (Inr ())) (Inr xy_data))
       = [mk_track ''X'', mk_track ''Y'']
   \<and> \<not> addedToQueue (handleGenerate (handleAddToQueue abc_state (Inr ())) (Inr xy_data))"
proof -
  let ?s = "handleAddToQueue abc_state (Inr ())"
  have song: "currentSong ?s \<noteq> None"
    by (simp add: handleAddToQueue_def handleAddToQueue_begin_def handleAddToQueue_resolved_def
        abc_state_eq ready_state_eq)
  have session: "truthy (sessionId ?s)"
    by (simp add: handleAddToQueue_def handleAddToQueue_begin_def handleAddToQueue_resolved_def
        abc_state_eq ready_state_eq truthy_def)
  have flag: "addedToQueue ?s"
    by (simp add: handleAddToQueue_def handleAddToQueue_begin_def handleAddToQueue_resolved_def)
  show ?thesis
    using song session flag C2_setList_on_generation [OF song session, of xy_data]
    by (simp add: xy_data_def)
qed

text \<open>
  The claim as written fails: with the reject of B outstanding (Replacing Set B), a
  successful generation of X, Y replaces the list and leaves B in the Replacing Set.
\<close>

theorem C2_setList_keeps_replacing_counterexample:
  "recommendations (handleGenerate (handleReject_begin abc_state ''B'') (Inr xy_data))
     = [mk_track ''X'', mk_track ''Y'']
   \<and> replacingIds (handleGenerate (handleReject_begin abc_state ''B'') (Inr xy_data)) = [''B'']
   \<and> replacingIds (handleGenerate (handleReject_begin abc_state ''B'') (Inr xy_data)) \<noteq> []"
  by (simp add: abc_state_eq ready_state_eq handleReject_begin_def handleGenerate_def
        handleGenerate_begin_def handleGenerate_resolved_def truthy_def xy_data_def
        Set_of_def Set_add_def)

text \<open>
  The flag is reset when the generation begins, not when its result is stored. If a
  submission to the queue that was outstanding settles in between, the new list X, Y is
  stored with the Committed flag true.
\<close>

lemma commit_settling_during_generation:
  "ids (run abc_state [AddToQueueBegin, GenerateBegin, AddToQueueResolved,
                       GenerateResolved xy_data]) = [''X'', ''Y'']
   \<and> addedToQueue (run abc_state [AddToQueueBegin, GenerateBegin, AddToQueueResolved,
                                  GenerateResolved xy_data])"
  by code_simp

text \<open>
  The two handlers that reset the Committed flag when they change the list: the flag is
  false after a reorder, and after a generation that ran.
\<close>

lemma committed_reset_by_reorder_and_generate:
  "\<not> addedToQueue (handleReorder s newList)
   \<and> (handleGenerate_begin s = Some s1 \<longrightarrow> \<not> addedToQueue (handleGenerate_resolved s1 d))"
  by (auto simp: handleReorder_def handleGenerate_begin_def handleGenerate_resolved_def
      split: if_splits)

text \<open>\<open>handleReject\<close> never writes the flag, whether or not it changes the list.\<close>

lemma handleReject_keeps_flag:
  "addedToQueue (handleReject s t outcome) = addedToQueue s"
  by (simp add: handleReject_def handleReject_begin_def handleReject_resolved_def
      handleReject_rejected_def handleReject_finally_def split: sum.split)

text \<open>
  Claim C3 at its failing input. The list A, B, C is added to the queue (the Committed
  flag is true); then B is rejected and the server's replacement D is put in its place.
  The contents of the list have changed, and the Committed flag is still true.
\<close>

theorem C3_replacement_after_commit_keeps_flag:
  "addedToQueue (handleAddToQueue abc_state (Inr ()))
   \<and> ids (handleAddToQueue abc_state (Inr ())) = [''A'', ''B'', ''C'']
   \<and> ids (handleReject (handleAddToQueue abc_state (Inr ())) ''B''
            (Inr \<lparr> replacement = mk_track ''D'' \<rparr>)) = [''A'', ''D'', ''C'']
   \<and> addedToQueue (handleReject (handleAddToQueue abc_state (Inr ())) ''B''
            (Inr \<lparr> replacement = mk_track ''D'' \<rparr>))"
  by (simp add: abc_state_eq ready_state_eq handleAddToQueue_def handleAddToQueue_begin_def
      handleAddToQueue_resolved_def handleReject_def handleReject_begin_def
      handleReject_resolved_def handleReject_finally_def ids_def mk_track_def)

text \<open>
  Claim C5, as the code has it. The completion of a reject yields a list of the same
  length, in which every position whose track carries the rejected identifier holds the
  replacement and every other position holds what it held; when the identifiers of the
  list are pairwise distinct and the rejected identifier is at position \<open>k\<close>, position
  \<open>k\<close> holds the replacement and every position other than \<open>k\<close> is untouched. The
  rejected identifier is no longer in the Replacing Set.
\<close>

theorem C5_completeReject_positional:
  "length (recommendations (handleReject_resolved s t d)) = length (recommendations s)
   \<and> (\<forall>j < length (recommendations s).
         recommendations (handleReject_resolved s t d) ! j =
           (if track_id (recommendations s ! j) = t then replacement d
            else recommendations s ! j))
   \<and> (distinct (ids s) \<longrightarrow>
        (\<forall>k j. k < length (recommendations s) \<and> track_id (recommendations s ! k) = t
               \<and> j < length (recommendations s) \<and> j \<noteq> k \<longrightarrow>
               recommendations (handleReject_resolved s t d) ! k = replacement d
               \<and> recommendations (handleReject_resolved s t d) ! j = recommendations s ! j))
   \<and> t \<notin> set (replacingIds (handleReject_resolved s t d))"
proof -
  let ?L = "recommendations s"
  let ?L' = "recommendations (handleReject_resolved s t d)"
  have len: "length ?L' = length ?L"
    by (simp add: handleReject_resolved_recs)
  have pointwise: "?L' ! j = (if track_id (?L ! j) = t then replacement d else ?L ! j)"
    if "j < length ?L" for j
    using that by (simp add: handleReject_resolved_recs)
  have other: "track_id (?L ! j) \<noteq> t"
    if "distinct (ids s)" "k < length ?L" "track_id (?L ! k) = t" "j < length ?L" "j \<noteq> k"
    for k j
  proof
    assume "track_id (?L ! j) = t"
    then have "ids s ! j = ids s ! k"
      using that by (simp add: ids_def)
    moreover have "j < length (ids s)" "k < length (ids s)"
      using that by (simp_all add: ids_def)
    ultimately have "j = k"
      using \<open>distinct (ids s)\<close> by (simp add: nth_eq_iff_index_eq)
    with \<open>j \<noteq> k\<close> show False by simp
  qed
  have removed: "t \<notin> set (replacingIds (handleReject_resolved s t d))"
    by (simp add: handleReject_resolved_replacing)
  show ?thesis
    using len pointwise other removed by auto
qed

text \<open>The scenario of the specification: A, B, C; B is rejected; D arrives.\<close>

theorem C5_completeReject_positional_witness:
  "distinct (ids (handleReject_begin abc_state ''B''))
   \<and> length (recommendations
        (handleReject_resolved (handleReject_begin abc_state ''B'') ''B''
           \<lparr> replacement = mk_track ''D'' \<rparr>)) = 3
   \<and> recommendations
        (handleReject_resolved (handleReject_begin abc_state ''B'') ''B''
           \<lparr> replacement = mk_track ''D'' \<rparr>) ! 0 = mk_track ''A''
   \<and> recommendations
        (handleReject_resolved (handleReject_begin abc_state ''B'') ''B''
           \<lparr> replacement = mk_track ''D'' \<rparr>) ! 1 = mk_track ''D''
   \<and> recommendations
        (handleReject_resolved (handleReject_begin abc_state ''B'') ''B''
           \<lparr> replacement = mk_track ''D'' \<rparr>) ! 2 = mk_track ''C''
   \<and> ''B'' \<notin> set (replacingIds
        (handleReject_resolved (handleReject_begin abc_state ''B'') ''B''
           \<lparr> replacement = mk_track ''D'' \<rparr>))"
proof -
  let ?s = "handleReject_begin abc_state ''B''"
  let ?d = "\<lparr> replacement = mk_track ''D'' \<rparr>"
  have recs: "recommendations ?s = [mk_track ''A'', mk_track ''B'', mk_track ''C'']"
    by (simp add: handleReject_begin_def abc_state_eq)
  have d: "distinct (ids ?s)"
    by (simp add: ids_def recs mk_track_def)
  note inst = C5_completeReject_positional [of ?s "''B''" ?d, unfolded recs]
  have len: "length (recommendations (handleReject_resolved ?s ''B'' ?d)) = 3"
    using inst by simp
  have pt: "\<forall>j<3. recommendations (handleReject_resolved ?s ''B'' ?d) ! j =
           (if track_id ([mk_track ''A'', mk_track ''B'', mk_track ''C''] ! j) = ''B''
            then mk_track ''D'' else [mk_track ''A'', mk_track ''B'', mk_track ''C''] ! j)"
    using inst by simp
  have rm: "''B'' \<notin> set (replacingIds (handleReject_resolved ?s ''B'' ?d))"
    using inst by simp
  have e0: "recommendations (handleReject_resolved ?s ''B'' ?d) ! 0 = mk_track ''A''"
    using pt [rule_format, of 0] by (simp add: mk_track_def)
  have e1: "recommendations (handleReject_resolved ?s ''B'' ?d) ! 1 = mk_track ''D''"
    using pt [rule_format, of 1] by (simp add: mk_track_def)
  have e2: "recommendations (handleReject_resolved ?s ''B'' ?d) ! 2 = mk_track ''C''"
    using pt [rule_format, of 2] by (simp add: mk_track_def)
  show ?thesis
    using d len e0 e1 e2 rm by (intro conjI)
qed

text \<open>
  The claim as written fails on a list the handlers can produce: in B, B, C (the reject
  of A was answered with a track of identifier B) the identifier B is at position 0, and
  the completion of the reject of B with D also replaces position 1.
\<close>

theorem C5_duplicate_identifier_counterexample:
  "ids dup_state ! 0 = ''B''
   \<and> recommendations dup_state ! 1 = mk_track ''B''
   \<and> recommendations (handleReject_resolved dup_state ''B'' \<lparr> replacement = mk_track ''D'' \<rparr>) ! 1
       = mk_track ''D''
   \<and> recommendations (handleReject_resolved dup_state ''B'' \<lparr> replacement = mk_track ''D'' \<rparr>) ! 1
       \<noteq> recommendations dup_state ! 1"
  by (simp add: dup_state_eq handleReject_resolved_recs ids_def mk_track_def)

section \<open>Distinct identifiers\<close>

lemma replace_ids_subset:
  "set (map f (map (\<lambda>r. if f r = t then y else r) xs)) \<subseteq> insert (f y) (set (map f xs) - {t})"
proof (induction xs)
  case Nil
  show ?case by simp
next
  case (Cons x xs)
  then show ?case
    by (cases "f x = t") auto
qed

lemma distinct_map_replace_aux:
  "distinct (map f xs) \<Longrightarrow> f y \<notin> set (map f xs) - {t} \<Longrightarrow>
   distinct (map f (map (\<lambda>r. if f r = t then y else r) xs))"
proof (induction xs)
  case Nil
  then show ?case by simp
next
  case (Cons x xs)
  let ?g = "\<lambda>r. if f r = t then y else r"
  have tail: "distinct (map f (map ?g xs))"
    using Cons by auto
  show ?case
  proof (cases "f x = t")
    case True
    then have absent: "t \<notin> set (map f xs)"
      using Cons.prems(1) by auto
    then have same: "map ?g xs = xs"
      by (rule map_replace_absent)
    have "f y \<notin> set (map f xs)"
      using Cons.prems(2) absent by auto
    then show ?thesis
      using True Cons.prems(1) same by simp
  next
    case False
    have "f x \<notin> insert (f y) (set (map f xs) - {t})"
      using False Cons.prems by auto
    then have nin: "f x \<notin> set (map f (map ?g xs))"
      using replace_ids_subset [of f t y xs] by blast
    have "map f (map ?g (x # xs)) = f x # map f (map ?g xs)"
      using False by (simp only: list.map if_False)
    then show ?thesis
      using nin tail by (simp only: distinct.simps simp_thms)
  qed
qed

lemma distinct_map_replace:
  assumes "distinct (map f xs)"
    and "t \<in> set (map f xs) \<longrightarrow> f y \<notin> set (filter (\<lambda>i. i \<noteq> t) (map f xs))"
  shows "distinct (map f (map (\<lambda>r. if f r = t then y else r) xs))"
proof (cases "t \<in> set (map f xs)")
  case True
  then have "f y \<notin> set (map f xs) - {t}"
    using assms(2) by auto
  with assms(1) show ?thesis
    by (rule distinct_map_replace_aux)
next
  case False
  then show ?thesis
    using assms(1) by (simp add: map_replace_absent)
qed

lemma step_keeps_list:
  "(case e of
      GenerateBegin \<Rightarrow> False | GenerateResolved _ \<Rightarrow> False | RejectResolved _ _ \<Rightarrow> False
    | Reorder _ \<Rightarrow> False | DragEnd _ \<Rightarrow> False | _ \<Rightarrow> True)
   \<Longrightarrow> recommendations (step s e) = recommendations s"
  by (cases e)
     (simp_all add: handleGenerate_rejected_def handleReject_begin_def
        handleReject_rejected_def handleReject_finally_def handleAddToQueue_begin_def
        handleAddToQueue_resolved_def handleAddToQueue_rejected_def
        getCurrentSong_resolved_def getCurrentSong_rejected_def)

lemma dragEnd_step_mset:
  "mset (recommendations (step s (DragEnd ev))) = mset (recommendations s)"
proof (cases "handleDragEnd s ev")
  case (Inl err)
  then show ?thesis by simp
next
  case (Inr s')
  then have "mset (recommendations s') = mset (recommendations s)"
    by (rule handleDragEnd_mset)
  then show ?thesis
    using Inr by simp
qed

lemma distinct_of_mset_eq: "mset xs = mset ys \<Longrightarrow> distinct ys \<Longrightarrow> distinct xs"
  using mset_eq_imp_distinct_iff by blast

lemma step_distinct:
  assumes "distinct (ids s)" and "admissible s e"
  shows "distinct (ids (step s e))"
proof (cases e)
  case GenerateBegin
  then show ?thesis
    using assms(1) by (simp add: ids_def handleGenerate_begin_def)
next
  case (GenerateResolved d)
  then show ?thesis
    using assms(2) by (simp add: ids_def handleGenerate_resolved_def)
next
  case (RejectResolved t d)
  then have "t \<in> set (map track_id (recommendations s)) \<longrightarrow>
      track_id (replacement d) \<notin> set (filter (\<lambda>i. i \<noteq> t) (map track_id (recommendations s)))"
    using assms(2) by (simp add: ids_def)
  with assms(1) have "distinct (map track_id
      (map (\<lambda>r. if track_id r = t then replacement d else r) (recommendations s)))"
    unfolding ids_def by (rule distinct_map_replace)
  then show ?thesis
    using RejectResolved by (simp only: ids_def step.simps handleReject_resolved_recs)
next
  case (Reorder newList)
  then have "mset (ids (step s e)) = mset (ids s)"
    using assms(2) by (simp add: ids_def handleReorder_def)
  then show ?thesis
    using assms(1) by (rule distinct_of_mset_eq)
next
  case (DragEnd ev)
  have "mset (recommendations (step s (DragEnd ev))) = mset (recommendations s)"
    by (rule dragEnd_step_mset)
  then have "mset (ids (step s e)) = mset (ids s)"
    unfolding DragEnd ids_def by (simp only: mset_map)
  then show ?thesis
    using assms(1) by (rule distinct_of_mset_eq)
qed (use assms(1) in \<open>simp_all only: ids_def step_keeps_list event.case\<close>)

text \<open>
  Claim C7, as the code has it. The handlers themselves do not enforce distinct
  identifiers. The identifiers of the list stay pairwise distinct along every run in
  which each generated list has pairwise distinct identifiers, each list passed to
  \<open>handleReorder\<close> is a permutation of the current one (a drag always is), and each
  replacement that is applied carries an identifier that no other track of the list has.
\<close>

theorem C7_distinct_identifiers_invariant:
  "distinct (ids s) \<Longrightarrow> run_admissible s es \<Longrightarrow> distinct (ids (run s es))"
proof (induction es arbitrary: s)
  case Nil
  then show ?case by simp
next
  case (Cons e es)
  from Cons.prems have adm: "admissible s e" and rest: "run_admissible (step s e) es"
    by simp_all
  from Cons.prems(1) adm have "distinct (ids (step s e))"
    by (rule step_distinct)
  then have "distinct (ids (run (step s e) es))"
    using rest by (rule Cons.IH)
  then show ?case by simp
qed

theorem C7_distinct_identifiers_invariant_witness:
  "distinct (ids ready_state)
   \<and> run_admissible ready_state reject_trace
   \<and> ids (run ready_state reject_trace) = [''D'', ''C'', ''A'']
   \<and> distinct (ids (run ready_state reject_trace))"
proof -
  have start: "distinct (ids ready_state)"
    by code_simp
  have adm: "run_admissible ready_state reject_trace"
    by code_simp
  have result: "ids (run ready_state reject_trace) = [''D'', ''C'', ''A'']"
    by code_simp
  show ?thesis
    using start adm result C7_distinct_identifiers_invariant [OF start adm] by (intro conjI)
qed

text \<open>
  The claim as written fails: the generated list A, B, C has distinct identifiers, and
  when the server answers the reject of A with a track of identifier B, the list is
  B, B, C.
\<close>

theorem C7_duplicate_replacement_counterexample:
  "distinct (map track_id (data_recommendations abc_data))
   \<and> ids (run ready_state dup_trace) = [''B'', ''B'', ''C'']
   \<and> \<not> distinct (ids (run ready_state dup_trace))"
proof -
  have generated: "distinct (map track_id (data_recommendations abc_data))"
    by code_simp
  have result: "ids (run ready_state dup_trace) = [''B'', ''B'', ''C'']"
    by code_simp
  show ?thesis
    using generated result by simp
qed

section \<open>The gateway client\<close>

lemma string_of_nat_nonempty: "string_of_nat n \<noteq> []"
  by (subst string_of_nat.simps) simp

lemma api_resolved:
  assumes "fetch (api_request path opts) calls = Resolved res"
  shows "api fetch calls path opts =
     (if res_ok res then res_json res
      else Inl (Error (case res_text res of
                         Inl _ \<Rightarrow> ''Unknown error''
                       | Inr t \<Rightarrow> if t = [] then ''HTTP '' @ string_of_nat (res_status res) else t)),
      Suc calls)"
  using assms by (simp add: api_def Let_def split: sum.split)

text \<open>An error response without a body: the message is made from the status.\<close>

lemma status_message_example:
  "fst (perform (\<lambda>r n. Resolved bare_error_response) 0 (GetCurrentSong ''tok''))
     = Inl (Error ''HTTP 503'')"
  by code_simp

text \<open>
  Claim C8, as the code has it. For each of the four operations, when \<^verbatim>\<open>fetch\<close> resolves
  with a response: if the response is not ok, the operation throws an \<open>Error\<close> whose
  message is the body text, or \<open>HTTP\<close> followed by the status when the body is empty, or
  \<open>Unknown error\<close> when the body cannot be read, and this message is never empty; if
  the response is ok, the outcome of the operation is the outcome of \<^verbatim>\<open>res.json()\<close>: the
  parsed value when the body is JSON, the parser's error otherwise. In every case
  \<^verbatim>\<open>fetch\<close> has been called exactly once.
\<close>

theorem C8_gateway_contract:
  assumes "operation_options op = (path, opts)"
    and "fetch (api_request path opts) calls = Resolved res"
  shows "(\<not> res_ok res \<longrightarrow>
            fst (perform fetch calls op) =
              Inl (Error (case res_text res of
                            Inl _ \<Rightarrow> ''Unknown error''
                          | Inr t \<Rightarrow> if t = [] then ''HTTP '' @ string_of_nat (res_status res)
                                     else t))
            \<and> (\<exists>e. fst (perform fetch calls op) = Inl e \<and> message e \<noteq> []))
         \<and> (res_ok res \<longrightarrow> fst (perform fetch calls op) = res_json res)
         \<and> snd (perform fetch calls op) = Suc calls"
proof -
  have p: "perform fetch calls op = api fetch calls path opts"
    using assms(1) by (simp add: perform_def)
  show ?thesis
    unfolding p api_resolved [of fetch path opts calls res, OF assms(2)]
    by (auto split: sum.split)
qed

theorem C8_gateway_contract_witness:
  "operation_options (AddToQueue ''tok'' [''A'']) =
     (''/add-to-queue'', snd (addToQueue_options ''tok'' [''A'']))
   \<and> \<not> res_ok error_response
   \<and> fst (perform (\<lambda>r n. Resolved error_response) 0 (AddToQueue ''tok'' [''A'']))
       = Inl (Error ''queue is full'')
   \<and> snd (perform (\<lambda>r n. Resolved error_response) 0 (AddToQueue ''tok'' [''A''])) = Suc 0
   \<and> res_ok ok_response
   \<and> fst (perform (\<lambda>r n. Resolved ok_response) 0 (AddToQueue ''tok'' [''A''])) = Inr JNull"
proof -
  let ?op = "AddToQueue ''tok'' [''A'']"
  let ?opts = "snd (addToQueue_options ''tok'' [''A''])"
  have opt: "operation_options ?op = (''/add-to-queue'', ?opts)"
    by (simp add: addToQueue_options_def)
  have f1: "(\<lambda>r n. Resolved error_response) (api_request ''/add-to-queue'' ?opts) (0::nat)
              = Resolved error_response"
    by simp
  have f2: "(\<lambda>r n. Resolved ok_response) (api_request ''/add-to-queue'' ?opts) (0::nat)
              = Resolved ok_response"
    by simp
  have bad: "\<not> res_ok error_response" and body: "res_text error_response = Inr ''queue is full''"
    by (simp_all add: error_response_def)
  have good: "res_ok ok_response" and parsed: "res_json ok_response = Inr JNull"
    by (simp_all add: ok_response_def)
  have r1: "fst (perform (\<lambda>r n. Resolved error_response) 0 ?op) = Inl (Error ''queue is full'')"
    and r2: "snd (perform (\<lambda>r n. Resolved error_response) 0 ?op) = Suc 0"
    using C8_gateway_contract [OF opt f1] bad body by simp_all
  have r3: "fst (perform (\<lambda>r n. Resolved ok_response) 0 ?op) = Inr JNull"
    using C8_gateway_contract [OF opt f2] good parsed by simp
  show ?thesis
    using opt bad r1 r2 good r3 by (intro conjI)
qed

text \<open>
  The claim as written fails: a success response whose body is empty makes
  \<^verbatim>\<open>res.json()\<close> reject, and the operation fails although the response indicates success.
\<close>

theorem C8_success_without_json_counterexample:
  "res_ok empty_ok_response
   \<and> fst (perform (\<lambda>r n. Resolved empty_ok_response) 0 (AddToQueue ''tok'' [''A'']))
       = Inl (SyntaxError ''Unexpected end of JSON input'')"
  by (simp add: perform_def addToQueue_options_def api_def empty_ok_response_def)


section \<open>The session\<close>

lemma step_sessionId: "sessionId (step s e) = sessionId s"
proof (cases e)
  case GenerateBegin
  then show ?thesis
    by (simp add: handleGenerate_begin_def)
next
  case (DragEnd ev)
  then show ?thesis
    by (simp add: handleDragEnd_def handleReorder_def Let_def split: option.split)
qed (simp_all add: handleGenerate_resolved_def handleGenerate_rejected_def
      handleReject_begin_def handleReject_resolved_def handleReject_rejected_def
      handleReject_finally_def handleAddToQueue_begin_def handleAddToQueue_resolved_def
      handleAddToQueue_rejected_def handleReorder_def getCurrentSong_resolved_def
      getCurrentSong_rejected_def)

lemma run_sessionId: "sessionId (run s es) = sessionId s"
  by (induction es arbitrary: s) (simp_all add: step_sessionId)

lemma render_without_session: "\<not> truthy (sessionId s) \<Longrightarrow> App_render s = [LoginPage]"
  by (simp add: App_render_def)

lemma getSessionId_present:
  assumes "params_get (location_search b) ''session'' = Some v" and "v \<noteq> []"
  shows "getSessionId b =
     (Some v, replaceState_root (b\<lparr> sessionStorage := (sessionStorage b)(''session_id'' \<mapsto> v) \<rparr>))"
  using assms by (simp add: getSessionId_def Let_def truthy_def)

lemma getSessionId_absent:
  assumes "\<not> truthy (params_get (location_search b) ''session'')"
  shows "getSessionId b = (sessionStorage b ''session_id'', b)"
  using assms by (simp add: getSessionId_def Let_def)

text \<open>
  Claim C9, as the code has it. When the URL carries a session parameter whose value is
  not empty, \<open>getSessionId\<close> returns it, stores it under \<open>session_id\<close> (over any token
  stored before), and leaves the location \<^verbatim>\<open>/\<close> without the parameter. When the parameter
  is absent or empty, it returns the stored token, or null, and changes nothing. When it
  returns null, start-up sends no request, and whatever events follow, \<open>App\<close> renders the
  login page and nothing else.
\<close>

theorem C9_session_resolution:
  "(\<forall>v. params_get (location_search b) ''session'' = Some v \<and> v \<noteq> [] \<longrightarrow>
        fst (getSessionId b) = Some v
        \<and> sessionStorage (snd (getSessionId b)) ''session_id'' = Some v
        \<and> params_get (location_search (snd (getSessionId b))) ''session'' = None
        \<and> location_pathname (snd (getSessionId b)) = ''/'')
   \<and> (\<not> truthy (params_get (location_search b) ''session'') \<longrightarrow>
        getSessionId b = (sessionStorage b ''session_id'', b))
   \<and> (fst (getSessionId b) = None \<longrightarrow>
        snd (fst (App_start b)) = []
        \<and> (\<forall>es. App_render (run (fst (fst (App_start b))) es) = [LoginPage]))"
proof (intro conjI allI impI)
  fix v
  assume "params_get (location_search b) ''session'' = Some v \<and> v \<noteq> []"
  then have g: "getSessionId b =
     (Some v, replaceState_root (b\<lparr> sessionStorage := (sessionStorage b)(''session_id'' \<mapsto> v) \<rparr>))"
    by (simp add: getSessionId_present)
  show "fst (getSessionId b) = Some v"
    by (simp add: g)
  show "sessionStorage (snd (getSessionId b)) ''session_id'' = Some v"
    by (simp add: g replaceState_root_def)
  show "params_get (location_search (snd (getSessionId b))) ''session'' = None"
    by (simp add: g replaceState_root_def params_get_def)
  show "location_pathname (snd (getSessionId b)) = ''/''"
    by (simp add: g replaceState_root_def)
next
  assume "\<not> truthy (params_get (location_search b) ''session'')"
  then show "getSessionId b = (sessionStorage b ''session_id'', b)"
    by (rule getSessionId_absent)
next
  assume none: "fst (getSessionId b) = None"
  obtain b' where g: "getSessionId b = (None, b')"
    using none by (cases "getSessionId b") simp
  have start: "fst (App_start b) = (initial_state None, [])"
    by (simp add: App_start_def g App_mount_def initial_state_def truthy_def)
  show "snd (fst (App_start b)) = []"
    by (simp add: start)
  fix es
  have "sessionId (run (initial_state None) es) = None"
    by (simp add: run_sessionId initial_state_def)
  then have "\<not> truthy (sessionId (run (initial_state None) es))"
    by (simp add: truthy_def)
  then have "App_render (run (initial_state None) es) = [LoginPage]"
    by (rule render_without_session)
  then show "App_render (run (fst (fst (App_start b))) es) = [LoginPage]"
    by (simp add: start)
qed

theorem C9_session_resolution_witness:
  "params_get (location_search url_browser) ''session'' = Some ''tok''
   \<and> fst (getSessionId url_browser) = Some ''tok''
   \<and> sessionStorage (snd (getSessionId url_browser)) ''session_id'' = Some ''tok''
   \<and> params_get (location_search (snd (getSessionId url_browser))) ''session'' = None
   \<and> \<not> truthy (params_get (location_search stored_browser) ''session'')
   \<and> fst (getSessionId stored_browser) = Some ''old''
   \<and> fst (getSessionId blank_browser) = None
   \<and> snd (fst (App_start blank_browser)) = []
   \<and> App_render (run (fst (fst (App_start blank_browser))) [GenerateBegin, RejectBegin ''A''])
       = [LoginPage]"
proof -
  have present: "params_get (location_search url_browser) ''session'' = Some ''tok''"
    by (simp add: url_browser_def params_get_def)
  have filled: "''tok'' \<noteq> []"
    by simp
  have absent: "\<not> truthy (params_get (location_search stored_browser) ''session'')"
    by (simp add: stored_browser_def params_get_def truthy_def)
  have unset: "\<not> truthy (params_get (location_search blank_browser) ''session'')"
    by (simp add: blank_browser_def params_get_def truthy_def)
  note first = C9_session_resolution [of url_browser, THEN conjunct1, THEN spec, THEN mp,
      OF conjI, OF present filled]
  have u1: "fst (getSessionId url_browser) = Some ''tok''"
    using first by (rule conjunct1)
  have u2: "sessionStorage (snd (getSessionId url_browser)) ''session_id'' = Some ''tok''"
    using first [THEN conjunct2] by (rule conjunct1)
  have u3: "params_get (location_search (snd (getSessionId url_browser))) ''session'' = None"
    using first [THEN conjunct2, THEN conjunct2] by (rule conjunct1)
  have "getSessionId stored_browser = (sessionStorage stored_browser ''session_id'', stored_browser)"
    using C9_session_resolution [of stored_browser, THEN conjunct2, THEN conjunct1] absent by (rule mp)
  then have st: "fst (getSessionId stored_browser) = Some ''old''"
    by (simp add: stored_browser_def)
  have "getSessionId blank_browser = (sessionStorage blank_browser ''session_id'', blank_browser)"
    using C9_session_resolution [of blank_browser, THEN conjunct2, THEN conjunct1] unset by (rule mp)
  then have bl: "fst (getSessionId blank_browser) = None"
    by (simp add: blank_browser_def)
  note third = C9_session_resolution [of blank_browser, THEN conjunct2, THEN conjunct2, THEN mp, OF bl]
  have l1: "snd (fst (App_start blank_browser)) = []"
    using third by (rule conjunct1)
  have l2: "App_render (run (fst (fst (App_start blank_browser))) [GenerateBegin, RejectBegin ''A''])
          = [LoginPage]"
    using third [THEN conjunct2] by (rule spec)
  show ?thesis
    using present u1 u2 u3 absent st bl l1 l2 by (intro conjI)
qed

text \<open>
  The claim as written fails: with \<^verbatim>\<open>?session=\<close> the parameter is present, yet the
  resolver returns the stored token, stores nothing and leaves the location as it is.
\<close>

theorem C9_empty_parameter_counterexample:
  "params_get (location_search empty_param_browser) ''session'' = Some []
   \<and> fst (getSessionId empty_param_browser) = Some ''old''
   \<and> snd (getSessionId empty_param_browser) = empty_param_browser"
  by (simp add: getSessionId_def empty_param_browser_def params_get_def truthy_def Let_def)


end
